theory Spec2Isabelle
  imports Main "HOL-Library.Word"
begin

unbundle bit_operations_syntax

section \<open>Data model of Core/HLE/HLE.cpp\<close>

text \<open>
  The opcode, the function identifiers (NIDs) and guest addresses are \<open>u32\<close>. Indices that
  the C++ code keeps in an \<open>int\<close> and compares with \<open>-1\<close> are \<open>int\<close>. A
  \<open>const char *\<close> is the \<open>string\<close> of the characters before its terminator, so
  \<open>strlen\<close> is \<open>length\<close> and \<open>strcmp(a, b) == 0\<close> is \<open>a = b\<close>.

  A host function pointer \<open>HLEFunc\<close> is \<open>None\<close> (the null pointer) or \<open>Some p\<close>; what
  the function at \<open>p\<close> does to the state is not part of this file and is the parameter
  \<open>host\<close> of \<open>CallSyscall\<close>.
\<close>

type_synonym u32 = "32 word"

type_synonym HLEFunc = "nat option"

record HLEFunction =
  ID :: u32
  func :: HLEFunc
  name :: string

record HLEModule =
  name :: string
  numFunctions :: int
  funcTable :: "HLEFunction list"

record Syscall =
  moduleName :: string
  symAddr :: u32
  nid :: u32

text \<open>
  Calls that leave this file are recorded, in order, in \<open>trace\<close>: the log macros with
  their format string and arguments, a diagnostic assertion whose condition is false,
  \<open>Memory::Write_U32(value, address)\<close>, the kernel entry points of the post-call sequence,
  and the two debugger hooks.
\<close>

datatype log_arg = S string | X u32

datatype event =
    ERROR_LOG string "log_arg list"
  | INFO_LOG string "log_arg list"
  | DbgAssertMsg string
  | Write_U32 u32 u32
  | KernelForceCallbacks
  | RunOnePendingInterrupt
  | KernelReSchedule2 bool string
  | KernelReSchedule string
  | KernelCheckCallbacks
  | Core_EnableStepping bool
  | SetDebugMode bool

record hle_state =
  moduleDB :: "HLEModule list"
  unresolvedSyscalls :: "Syscall list"
  hleAfterSyscall :: "32 word"
  hleAfterSyscallReschedReason :: "char list"
  trace :: "event list"

definition emit :: "event \<Rightarrow> hle_state \<Rightarrow> hle_state" where
  "emit e s = s\<lparr>trace := trace s @ [e]\<rparr>"

definition dbg_assert_msg :: "bool \<Rightarrow> string \<Rightarrow> hle_state \<Rightarrow> hle_state" where
  "dbg_assert_msg c msg s = (if c then s else emit (DbgAssertMsg msg) s)"

text \<open>The macros of MIPSCodeUtils.h and the constant \<open>NID_IDLE\<close> are declared outside
  these sources; they are parameters.\<close>

record MIPSCodeUtils =
  MIPS_MAKE_JR_RA :: u32
  MIPS_MAKE_NOP :: u32
  MIPS_MAKE_J :: "u32 \<Rightarrow> u32"

definition HLE_AFTER_NOTHING :: "32 word" where "HLE_AFTER_NOTHING = 0x00"
definition HLE_AFTER_RESCHED :: "32 word" where "HLE_AFTER_RESCHED = 0x01"
definition HLE_AFTER_CURRENT_CALLBACKS :: "32 word" where "HLE_AFTER_CURRENT_CALLBACKS = 0x02"
definition HLE_AFTER_ALL_CALLBACKS :: "32 word" where "HLE_AFTER_ALL_CALLBACKS = 0x04"
definition HLE_AFTER_RESCHED_CALLBACKS :: "32 word" where "HLE_AFTER_RESCHED_CALLBACKS = 0x08"
definition HLE_AFTER_RUN_INTERRUPTS :: "32 word" where "HLE_AFTER_RUN_INTERRUPTS = 0x10"
definition HLE_AFTER_DEBUG_BREAK :: "32 word" where "HLE_AFTER_DEBUG_BREAK = 0x20"

section \<open>Module registry\<close>

definition RegisterModule :: "string \<Rightarrow> int \<Rightarrow> HLEFunction list \<Rightarrow> hle_state \<Rightarrow> hle_state" where
  "RegisterModule nm n tbl s =
     s\<lparr>moduleDB := moduleDB s @ [\<lparr>HLEModule.name = nm, numFunctions = n, funcTable = tbl\<rparr>]\<rparr>"

definition HLEShutdown :: "hle_state \<Rightarrow> hle_state" where
  "HLEShutdown s = s\<lparr>hleAfterSyscall := HLE_AFTER_NOTHING, moduleDB := [], unresolvedSyscalls := []\<rparr>"

text \<open>The loop of \<open>GetModuleIndex\<close>, from position \<open>i\<close> of the vector on.\<close>

fun GetModuleIndex_from :: "string \<Rightarrow> HLEModule list \<Rightarrow> int \<Rightarrow> int" where
  "GetModuleIndex_from nm [] i = -1"
| "GetModuleIndex_from nm (m # ms) i =
     (if nm = HLEModule.name m then i else GetModuleIndex_from nm ms (i + 1))"

definition GetModuleIndex :: "string \<Rightarrow> hle_state \<Rightarrow> int" where
  "GetModuleIndex nm s = GetModuleIndex_from nm (moduleDB s) 0"

text \<open>
  \<open>moduleDB[i]\<close> and \<open>funcTable[i]\<close> are unchecked in C++; a read outside the vector or
  the table is undefined there and \<open>None\<close> here.
\<close>

definition at :: "'a list \<Rightarrow> int \<Rightarrow> 'a option" where
  "at xs i = (if 0 \<le> i \<and> nat i < length xs then Some (xs ! nat i) else None)"

text \<open>The loop of \<open>GetFuncIndex\<close>, from \<open>i\<close> on.\<close>

function GetFuncIndex_from :: "HLEModule \<Rightarrow> u32 \<Rightarrow> int \<Rightarrow> int option" where
  "GetFuncIndex_from module nib i =
     (if i < numFunctions module then
        (case at (funcTable module) i of
           None \<Rightarrow> None
         | Some f \<Rightarrow> if ID f = nib then Some i else GetFuncIndex_from module nib (i + 1))
      else Some (-1))"
  by pat_completeness auto
termination
  by (relation "measure (\<lambda>(m, n, i). nat (numFunctions m - i))") auto

declare GetFuncIndex_from.simps [simp del]

definition GetFuncIndex :: "int \<Rightarrow> u32 \<Rightarrow> hle_state \<Rightarrow> int option" where
  "GetFuncIndex moduleIndex nib s =
     (case at (moduleDB s) moduleIndex of
        None \<Rightarrow> None
      | Some module \<Rightarrow> GetFuncIndex_from module nib 0)"

section \<open>Syscall encoder\<close>

text \<open>
  \<open>modindex\<close> and \<open>funcindex\<close> are \<open>int\<close>; the result of the expression becomes the
  \<open>u32\<close> return value. The expression is computed on unbounded integers and cut to 32
  bits, which is the value of the C++ expression as long as the shifts stay within a
  32-bit \<open>int\<close> (module index below 8192), and its two's complement wrap-around beyond.
\<close>

definition GetSyscallOp :: "string \<Rightarrow> u32 \<Rightarrow> hle_state \<Rightarrow> (u32 \<times> hle_state) option" where
  "GetSyscallOp nm nib s =
     (let modindex = GetModuleIndex nm s in
      if modindex \<noteq> -1 then
        (case GetFuncIndex modindex nib s of
           None \<Rightarrow> None
         | Some funcindex \<Rightarrow>
             if funcindex \<noteq> -1
             then Some (word_of_int (0x0000000c OR push_bit 18 modindex OR push_bit 6 funcindex), s)
             else Some (word_of_int (0x0003FFCC OR push_bit 18 modindex), s))
      else Some (0x0003FFCC, emit (ERROR_LOG ''Unknown module %s!'' [S nm]) s))"

section \<open>Decoding in the dispatcher\<close>

text \<open>The three locals at the head of \<open>CallSyscall\<close>.\<close>

definition callno :: "u32 \<Rightarrow> u32" where
  "callno op = drop_bit 6 op AND 0xFFFFF"

definition funcnum :: "u32 \<Rightarrow> u32" where
  "funcnum op = callno op AND 0xFFF"

definition modulenum :: "u32 \<Rightarrow> u32" where
  "modulenum op = drop_bit 12 (callno op AND 0xFF000)"

section \<open>Syscall patcher and resolver\<close>

text \<open>
  \<open>Syscall sysc = {"", address, nib}; strncpy(sysc.moduleName, moduleName, 32);
  sysc.moduleName[31] = '\0'\<close> leaves the first 31 characters of the name in the
  32-byte field.
\<close>

definition WriteSyscall ::
  "MIPSCodeUtils \<Rightarrow> string \<Rightarrow> u32 \<Rightarrow> u32 \<Rightarrow> hle_state \<Rightarrow> hle_state option" where
  "WriteSyscall U nm nib address s =
     (if nib = 0 then
        Some (emit (Write_U32 (MIPS_MAKE_NOP U) (address + 4))
               (emit (Write_U32 (MIPS_MAKE_JR_RA U) address) s))
      else
        let modindex = GetModuleIndex nm s in
        if modindex \<noteq> -1 then
          (let s1 = emit (Write_U32 (MIPS_MAKE_JR_RA U) address) s in
           case GetSyscallOp nm nib s1 of
             None \<Rightarrow> None
           | Some (op, s2) \<Rightarrow> Some (emit (Write_U32 op (address + 4)) s2))
        else
          (let s1 = emit (INFO_LOG ''Syscall (%s,%08x) unresolved, storing for later resolving''
                        [S nm, X nib]) s;
               sysc = \<lparr>moduleName = take 31 nm, symAddr = address, nid = nib\<rparr>
           in Some (s1\<lparr>unresolvedSyscalls := unresolvedSyscalls s1 @ [sysc]\<rparr>)))"

text \<open>\<open>strncmp(a, b, n) == 0\<close> on two strings.\<close>

definition strncmp_eq :: "string \<Rightarrow> string \<Rightarrow> nat \<Rightarrow> bool" where
  "strncmp_eq a b n = (take n a = take n b)"

text \<open>One pass of the loop body of \<open>ResolveSyscall\<close> over the entry \<open>sysc\<close>.\<close>

definition ResolveSyscall_body ::
  "MIPSCodeUtils \<Rightarrow> string \<Rightarrow> u32 \<Rightarrow> u32 \<Rightarrow> Syscall \<Rightarrow> hle_state \<Rightarrow> hle_state" where
  "ResolveSyscall_body U nm nib address sysc s =
     (if strncmp_eq (moduleName sysc) nm 32 \<and> nid sysc = nib then
        emit (Write_U32 (MIPS_MAKE_NOP U) (symAddr sysc + 4))
          (emit (Write_U32 (MIPS_MAKE_J U address) (symAddr sysc))
            (emit (INFO_LOG ''Resolving %s/%08x'' [S nm, X nib]) s))
      else s)"

fun ResolveSyscall_loop ::
  "MIPSCodeUtils \<Rightarrow> string \<Rightarrow> u32 \<Rightarrow> u32 \<Rightarrow> Syscall list \<Rightarrow> hle_state \<Rightarrow> hle_state" where
  "ResolveSyscall_loop U nm nib address [] s = s"
| "ResolveSyscall_loop U nm nib address (sysc # rest) s =
     ResolveSyscall_loop U nm nib address rest (ResolveSyscall_body U nm nib address sysc s)"

definition ResolveSyscall ::
  "MIPSCodeUtils \<Rightarrow> string \<Rightarrow> u32 \<Rightarrow> u32 \<Rightarrow> hle_state \<Rightarrow> hle_state" where
  "ResolveSyscall U nm nib address s =
     ResolveSyscall_loop U nm nib address (unresolvedSyscalls s) s"

section \<open>Requests of post-call actions\<close>

definition hleCheckAllCallbacks :: "hle_state \<Rightarrow> hle_state" where
  "hleCheckAllCallbacks s = s\<lparr>hleAfterSyscall := hleAfterSyscall s OR HLE_AFTER_ALL_CALLBACKS\<rparr>"

definition hleCheckCurrentCallbacks :: "hle_state \<Rightarrow> hle_state" where
  "hleCheckCurrentCallbacks s =
     s\<lparr>hleAfterSyscall := hleAfterSyscall s OR HLE_AFTER_CURRENT_CALLBACKS\<rparr>"

text \<open>
  The reason buffer is the list of its bytes. \<open>strcpy\<close> and \<open>memcpy\<close> are \<open>None\<close>
  when they would write (or read) past the end of an array.
\<close>

definition NUL :: char where
  "NUL = CHR 0x00"

definition strcpy :: "char list \<Rightarrow> string \<Rightarrow> char list option" where
  "strcpy dst src =
     (if length src + 1 \<le> length dst
      then Some (src @ [NUL] @ drop (length src + 1) dst) else None)"

definition memcpy :: "char list \<Rightarrow> char list \<Rightarrow> nat \<Rightarrow> char list option" where
  "memcpy dst src n =
     (if n \<le> length dst \<and> n \<le> length src then Some (take n src @ drop n dst) else None)"

definition store_at :: "char list \<Rightarrow> nat \<Rightarrow> char \<Rightarrow> char list option" where
  "store_at buf i c = (if i < length buf then Some (buf[i := c]) else None)"

text \<open>The string that a reader of the buffer sees.\<close>

definition cstr :: "char list \<Rightarrow> string" where
  "cstr buf = takeWhile (\<lambda>c. c \<noteq> NUL) buf"

definition sizeof_reason :: nat where
  "sizeof_reason = 512"

text \<open>\<open>hleReSchedule(const char *reason)\<close>; a null \<open>reason\<close> is \<open>None\<close>.\<close>

definition hleReSchedule :: "string option \<Rightarrow> hle_state \<Rightarrow> hle_state option" where
  "hleReSchedule reason s =
     (let s1 = dbg_assert_msg (reason \<noteq> None) ''hleReSchedule: Expecting a valid reason.'' s;
          s2 = dbg_assert_msg (reason \<noteq> None \<and> length (the reason) < 256)
                 ''hleReSchedule: Not too long reason.'' s1;
          s3 = s2\<lparr>hleAfterSyscall := hleAfterSyscall s2 OR HLE_AFTER_RESCHED\<rparr>
      in case reason of
           None \<Rightarrow>
             map_option (\<lambda>b. s3\<lparr>hleAfterSyscallReschedReason := b\<rparr>)
               (strcpy (hleAfterSyscallReschedReason s3) ''Invalid reason'')
         | Some r \<Rightarrow>
             if length r \<ge> sizeof_reason then
               (case memcpy (hleAfterSyscallReschedReason s3) r (sizeof_reason - 1) of
                  None \<Rightarrow> None
                | Some b \<Rightarrow>
                    map_option (\<lambda>b'. s3\<lparr>hleAfterSyscallReschedReason := b'\<rparr>)
                      (store_at b (sizeof_reason - 1) NUL))
             else
               map_option (\<lambda>b. s3\<lparr>hleAfterSyscallReschedReason := b\<rparr>)
                 (strcpy (hleAfterSyscallReschedReason s3) r))"

text \<open>\<open>hleReSchedule(bool callbacks, const char *reason)\<close>.\<close>

definition hleReSchedule2 :: "bool \<Rightarrow> string option \<Rightarrow> hle_state \<Rightarrow> hle_state option" where
  "hleReSchedule2 callbacks reason s =
     (case hleReSchedule reason s of
        None \<Rightarrow> None
      | Some s1 \<Rightarrow>
          if callbacks
          then Some (s1\<lparr>hleAfterSyscall := hleAfterSyscall s1 OR HLE_AFTER_RESCHED_CALLBACKS\<rparr>)
          else Some s1)"

definition hleRunInterrupts :: "hle_state \<Rightarrow> hle_state" where
  "hleRunInterrupts s = s\<lparr>hleAfterSyscall := hleAfterSyscall s OR HLE_AFTER_RUN_INTERRUPTS\<rparr>"

definition hleDebugBreak :: "hle_state \<Rightarrow> hle_state" where
  "hleDebugBreak s = s\<lparr>hleAfterSyscall := hleAfterSyscall s OR HLE_AFTER_DEBUG_BREAK\<rparr>"

section \<open>Post-call action coordinator\<close>

definition NID_SUSPEND_INTR :: u32 where "NID_SUSPEND_INTR = 0x092968F4"
definition NID_RESUME_INTR :: u32 where "NID_RESUME_INTR = 0x5F10D406"

definition blacklistedNIDs :: "u32 \<Rightarrow> u32 list" where
  "blacklistedNIDs NID_IDLE = [NID_SUSPEND_INTR, NID_RESUME_INTR, NID_IDLE]"

definition hleExecuteDebugBreak :: "u32 \<Rightarrow> HLEFunction \<Rightarrow> hle_state \<Rightarrow> bool \<times> hle_state" where
  "hleExecuteDebugBreak NID_IDLE f s =
     (if ID f \<in> set (blacklistedNIDs NID_IDLE) then (False, s)
      else (True, emit (SetDebugMode True) (emit (Core_EnableStepping True) s)))"

text \<open>\<open>moduleDB[modulenum].funcTable[funcnum]\<close>.\<close>

definition funcTable_at :: "hle_state \<Rightarrow> int \<Rightarrow> int \<Rightarrow> HLEFunction option" where
  "funcTable_at s m f =
     (case at (moduleDB s) m of None \<Rightarrow> None | Some module \<Rightarrow> at (funcTable module) f)"

definition clear_reason :: "hle_state \<Rightarrow> hle_state" where
  "clear_reason s =
     s\<lparr>hleAfterSyscallReschedReason := (hleAfterSyscallReschedReason s)[0 := NUL]\<rparr>"

definition hleFinishSyscall :: "u32 \<Rightarrow> int \<Rightarrow> int \<Rightarrow> hle_state \<Rightarrow> hle_state option" where
  "hleFinishSyscall NID_IDLE m f s =
     (let s1 = (if hleAfterSyscall s AND HLE_AFTER_CURRENT_CALLBACKS \<noteq> 0
                then emit KernelForceCallbacks s else s);
          s2 = (if hleAfterSyscall s1 AND HLE_AFTER_RUN_INTERRUPTS \<noteq> 0
                then emit RunOnePendingInterrupt s1 else s1);
          s3 = (if hleAfterSyscall s2 AND HLE_AFTER_RESCHED_CALLBACKS \<noteq> 0
                then emit (KernelReSchedule2 True (cstr (hleAfterSyscallReschedReason s2))) s2
                else if hleAfterSyscall s2 AND HLE_AFTER_RESCHED \<noteq> 0
                then emit (KernelReSchedule (cstr (hleAfterSyscallReschedReason s2))) s2
                else if hleAfterSyscall s2 AND HLE_AFTER_ALL_CALLBACKS \<noteq> 0
                then emit KernelCheckCallbacks s2
                else s2)
      in if hleAfterSyscall s3 AND HLE_AFTER_DEBUG_BREAK \<noteq> 0 then
           (case funcTable_at s3 m f of
              None \<Rightarrow> None
            | Some fn \<Rightarrow>
                (case hleExecuteDebugBreak NID_IDLE fn s3 of
                   (False, s4) \<Rightarrow>
                     Some (clear_reason (s4\<lparr>hleAfterSyscall := HLE_AFTER_DEBUG_BREAK\<rparr>))
                 | (True, s4) \<Rightarrow>
                     Some (clear_reason (s4\<lparr>hleAfterSyscall := HLE_AFTER_NOTHING\<rparr>))))
         else Some (clear_reason (s3\<lparr>hleAfterSyscall := HLE_AFTER_NOTHING\<rparr>)))"

section \<open>Dispatcher\<close>

definition CallSyscall ::
  "(nat \<Rightarrow> hle_state \<Rightarrow> hle_state) \<Rightarrow> u32 \<Rightarrow> u32 \<Rightarrow> hle_state \<Rightarrow> hle_state option" where
  "CallSyscall host NID_IDLE op s =
     (if funcnum op = 0xfff \<or> op = 0xffff then
        (let s1 = dbg_assert_msg False ''Unknown syscall'' s in
         case at (moduleDB s1) (uint (modulenum op)) of
           None \<Rightarrow> None
         | Some module \<Rightarrow>
             Some (emit (ERROR_LOG ''Unknown syscall: Module: %s'' [S (HLEModule.name module)]) s1))
      else
        (case funcTable_at s (uint (modulenum op)) (uint (funcnum op)) of
           None \<Rightarrow> None
         | Some fn \<Rightarrow>
             (case func fn of
                Some p \<Rightarrow>
                  (let s1 = host p s in
                   if hleAfterSyscall s1 \<noteq> HLE_AFTER_NOTHING
                   then hleFinishSyscall NID_IDLE (uint (modulenum op)) (uint (funcnum op)) s1
                   else Some s1)
              | None \<Rightarrow>
                  Some (emit (ERROR_LOG ''Unimplemented HLE function %s'' [S (HLEFunction.name fn)]) s))))"

text \<open>
  A run of dispatches, one per opcode, with nothing else touching the state between
  them: the states in which \<open>CallSyscall\<close> is entered, in order. The run stops at the first
  dispatch that is undefined.
\<close>

fun entry_states ::
  "(nat \<Rightarrow> hle_state \<Rightarrow> hle_state) \<Rightarrow> u32 \<Rightarrow> u32 list \<Rightarrow> hle_state \<Rightarrow> hle_state list" where
  "entry_states host NID_IDLE [] s = []"
| "entry_states host NID_IDLE (op # ops) s =
     s # (case CallSyscall host NID_IDLE op s of
            None \<Rightarrow> []
          | Some s1 \<Rightarrow> entry_states host NID_IDLE ops s1)"

section \<open>A small registry for concrete runs\<close>

text \<open>
  One module with three entries: the suspend-interrupt function, an ordinary function and
  an entry without implementation. The host function behind pointer 0 requests a debug
  break, every other host function requests nothing.
\<close>

definition ex_fn0 :: HLEFunction where
  "ex_fn0 = \<lparr>ID = 0x092968F4, func = Some 0, name = ''sceKernelCpuSuspendIntr''\<rparr>"

definition ex_fn1 :: HLEFunction where
  "ex_fn1 = \<lparr>ID = 0x1111, func = Some 1, name = ''sceKernelFoo''\<rparr>"

definition ex_fn2 :: HLEFunction where
  "ex_fn2 = \<lparr>ID = 0x2222, func = None, name = ''sceKernelBar''\<rparr>"

definition ex_table :: "HLEFunction list" where
  "ex_table = [ex_fn0, ex_fn1, ex_fn2]"

definition ex_state :: hle_state where
  "ex_state =
     \<lparr>moduleDB = [\<lparr>HLEModule.name = ''Kernel_Library'', numFunctions = 3, funcTable = ex_table\<rparr>],
      unresolvedSyscalls = [],
      hleAfterSyscall = 0,
      hleAfterSyscallReschedReason = replicate 512 NUL,
      trace = []\<rparr>"

definition ex_host :: "nat \<Rightarrow> hle_state \<Rightarrow> hle_state" where
  "ex_host p s = (if p = 0 then hleDebugBreak s else s)"

definition ex_utils :: MIPSCodeUtils where
  "ex_utils = \<lparr>MIPS_MAKE_JR_RA = 0x03E00008, MIPS_MAKE_NOP = 0,
               MIPS_MAKE_J = (\<lambda>addr. 0x08000000 OR drop_bit 2 addr)\<rparr>"

text \<open>\<open>ex_state\<close> with pending actions and the reason \<open>wait\<close>.\<close>

definition ex_pending :: "32 word \<Rightarrow> hle_state" where
  "ex_pending bits =
     ex_state\<lparr>hleAfterSyscall := bits,
              hleAfterSyscallReschedReason := ''wait'' @ replicate 508 NUL\<rparr>"

definition ex_NID_IDLE :: u32 where "ex_NID_IDLE = 0x1D7E1D7E"

text \<open>The states after dispatching entry 0 from \<open>ex_state\<close> and then entry 1.\<close>

definition ex_state1 :: hle_state where
  "ex_state1 = ex_state\<lparr>hleAfterSyscall := HLE_AFTER_DEBUG_BREAK\<rparr>"

definition ex_state2 :: hle_state where
  "ex_state2 = ex_state\<lparr>trace := [Core_EnableStepping True, SetDebugMode True]\<rparr>"

text \<open>Three pending entries, two of them for the module \<open>sceFoo\<close>.\<close>

definition ex_unresolved :: hle_state where
  "ex_unresolved =
     ex_state\<lparr>unresolvedSyscalls :=
       [\<lparr>moduleName = ''sceFoo'', symAddr = 0x08804000, nid = 0x1111\<rparr>,
        \<lparr>moduleName = ''sceBar'', symAddr = 0x08804010, nid = 0x1111\<rparr>,
        \<lparr>moduleName = ''sceFoo'', symAddr = 0x08804020, nid = 0x1111\<rparr>]\<rparr>"

section \<open>Registry lookups\<close>

lemma GetModuleIndex_from_range:
  "GetModuleIndex_from nm ms i = r \<Longrightarrow> r \<noteq> -1 \<Longrightarrow> 0 \<le> i \<Longrightarrow>
     i \<le> r \<and> r < i + int (length ms) \<and> HLEModule.name (ms ! nat (r - i)) = nm"
proof (induction ms arbitrary: i)
  case Nil
  then show ?case by simp
next
  case (Cons m ms)
  show ?case
  proof (cases "nm = HLEModule.name m")
    case True
    with Cons.prems show ?thesis by simp
  next
    case False
    with Cons.prems have r: "GetModuleIndex_from nm ms (i + 1) = r" by simp
    from Cons.IH [OF r] Cons.prems
    have "i + 1 \<le> r \<and> r < i + 1 + int (length ms) \<and> HLEModule.name (ms ! nat (r - (i + 1))) = nm"
      by simp
    moreover have "nat (r - i) = Suc (nat (r - (i + 1)))" using calculation by linarith
    ultimately show ?thesis by simp
  qed
qed

lemma GetModuleIndex_found:
  assumes "GetModuleIndex nm s = m" "m \<noteq> -1"
  shows "0 \<le> m" "nat m < length (moduleDB s)" "at (moduleDB s) m = Some (moduleDB s ! nat m)"
    "HLEModule.name (moduleDB s ! nat m) = nm"
  using GetModuleIndex_from_range [of nm "moduleDB s" 0 m] assms
  by (auto simp: GetModuleIndex_def at_def)

lemma GetFuncIndex_from_range:
  "GetFuncIndex_from module nib i = Some r \<Longrightarrow> r \<noteq> -1 \<Longrightarrow> 0 \<le> i \<Longrightarrow>
     i \<le> r \<and> r < numFunctions module \<and> (\<exists>f. at (funcTable module) r = Some f \<and> ID f = nib)"
proof (induction module nib i rule: GetFuncIndex_from.induct)
  case (1 module nib i)
  from "1.prems" show ?case
    apply (subst (asm) GetFuncIndex_from.simps)
    apply (auto split: if_splits option.splits dest!: "1.IH")
    done
qed

section \<open>Encoding and decoding\<close>

lemma encode_decode_bits:
  fixes m f :: nat
  assumes "m < 256" "f < 4096"
  defines "op \<equiv> (word_of_int (0x0000000c OR push_bit 18 (int m) OR push_bit 6 (int f)) :: u32)"
  shows "funcnum op = word_of_nat f" "modulenum op = word_of_nat m" "take_bit 6 op = 0xC"
    "take_bit 12 (drop_bit 6 op) = word_of_nat f" "take_bit 8 (drop_bit 18 op) = word_of_nat m"
proof -
  have f: "take_bit 12 f = f" and m: "take_bit 8 m = m"
    using assms by (simp_all add: take_bit_nat_eq_self)
  have op: "op = 0xc OR push_bit 18 (word_of_nat (take_bit 8 m)) OR push_bit 6 (word_of_nat (take_bit 12 f))"
    unfolding op_def f m by (simp add: of_int_or_eq of_int_push_bit flip: push_bit_of_int)
  have c: "(0xc :: u32) = push_bit 2 (mask 2)" by (simp add: mask_eq_exp_minus_1)
  have k1: "(0xFFFFF :: u32) = mask 20" by (simp add: mask_eq_exp_minus_1)
  have k2: "(0xFFF :: u32) = mask 12" by (simp add: mask_eq_exp_minus_1)
  have k3: "(0xFF000 :: u32) = push_bit 12 (mask 8)" by (simp add: mask_eq_exp_minus_1)
  show "funcnum op = word_of_nat f"
    apply (subst f[symmetric])
    unfolding funcnum_def callno_def op c k1 k2
    by (rule bit_eqI) (auto simp add: bit_simps)
  show "modulenum op = word_of_nat m"
    apply (subst m[symmetric])
    unfolding modulenum_def callno_def op c k1 k3
    by (rule bit_eqI) (auto simp add: bit_simps)
  show "take_bit 6 op = 0xC"
    unfolding op unfolding c
    by (rule bit_eqI) (auto simp add: bit_simps)
  show "take_bit 12 (drop_bit 6 op) = word_of_nat f"
    apply (subst f[symmetric])
    unfolding op c
    by (rule bit_eqI) (auto simp add: bit_simps)
  show "take_bit 8 (drop_bit 18 op) = word_of_nat m"
    apply (subst m[symmetric])
    unfolding op c
    by (rule bit_eqI) (auto simp add: bit_simps)
qed

text \<open>
  C1. When \<open>GetSyscallOp\<close> finds the module at index \<open>m < 256\<close> and the function at index
  \<open>f < 4096\<close>, it returns an opcode and leaves the state alone; the decoding at the head
  of \<open>CallSyscall\<close> gives back module number \<open>m\<close> and function number \<open>f\<close>; bits 17..6 of
  the opcode are \<open>f\<close>, bits 25..18 are \<open>m\<close>, and the low six bits are the constant \<open>0x0c\<close>.
\<close>

theorem GetSyscallOp_decode:
  assumes "GetModuleIndex nm s = m" "m \<noteq> -1" "m < 256"
    and "GetFuncIndex m nib s = Some f" "f \<noteq> -1" "f < 4096"
  shows "\<exists>op. GetSyscallOp nm nib s = Some (op, s)
           \<and> uint (modulenum op) = m \<and> uint (funcnum op) = f
           \<and> take_bit 12 (drop_bit 6 op) = word_of_int f
           \<and> take_bit 8 (drop_bit 18 op) = word_of_int m
           \<and> take_bit 6 op = 0x0c"
proof -
  have m0: "0 \<le> m" using GetModuleIndex_found(1) assms(1,2) by blast
  obtain module where "at (moduleDB s) m = Some module" "GetFuncIndex_from module nib 0 = Some f"
    using assms(4) by (auto simp: GetFuncIndex_def split: option.splits)
  then have f0: "0 \<le> f" using GetFuncIndex_from_range [of module nib 0 f] assms(5) by simp
  define op :: u32 where "op = word_of_int (0x0000000c OR push_bit 18 m OR push_bit 6 f)"
  have mf: "m = int (nat m)" "f = int (nat f)" "nat m < 256" "nat f < 4096"
    using m0 f0 assms by simp_all
  have op': "op = word_of_int (0x0000000c OR push_bit 18 (int (nat m)) OR push_bit 6 (int (nat f)))"
    using mf(1,2) op_def by simp
  note b = encode_decode_bits [OF mf(3,4), folded op']
  have "GetSyscallOp nm nib s = Some (op, s)"
    using assms by (simp add: GetSyscallOp_def op_def)
  moreover have "uint (modulenum op) = m"
  proof -
    have "uint (word_of_nat (nat m) :: u32) = int (nat m)"
      using mf(3) by (simp add: uint_nat unat_of_nat)
    then show ?thesis using b(2) mf(1) by simp
  qed
  moreover have "uint (funcnum op) = f"
  proof -
    have "uint (word_of_nat (nat f) :: u32) = int (nat f)"
      using mf(4) by (simp add: uint_nat unat_of_nat)
    then show ?thesis using b(1) mf(2) by simp
  qed
  moreover have "take_bit 12 (drop_bit 6 op) = word_of_int f"
    "take_bit 8 (drop_bit 18 op) = word_of_int m"
    using b(4,5) m0 f0 by simp_all
  ultimately show ?thesis using b(3) by blast
qed

lemma ex_GetModuleIndex: "GetModuleIndex ''Kernel_Library'' ex_state = 0"
  by (simp add: GetModuleIndex_def ex_state_def)

lemma ex_GetFuncIndex_1111: "GetFuncIndex 0 0x1111 ex_state = Some 1"
  by (simp add: GetFuncIndex_def GetFuncIndex_from.simps at_def ex_state_def ex_table_def
      ex_fn0_def ex_fn1_def)

theorem GetSyscallOp_decode_witness:
  "GetModuleIndex ''Kernel_Library'' ex_state = 0 \<and> GetFuncIndex 0 0x1111 ex_state = Some 1
   \<and> GetSyscallOp ''Kernel_Library'' 0x1111 ex_state = Some (0x4c, ex_state)
   \<and> uint (modulenum 0x4c) = 0 \<and> uint (funcnum 0x4c) = 1"
proof -
  have "GetSyscallOp ''Kernel_Library'' 0x1111 ex_state = Some (0x4c, ex_state)"
    by (simp add: GetSyscallOp_def ex_GetModuleIndex ex_GetFuncIndex_1111)
  with GetSyscallOp_decode [OF ex_GetModuleIndex _ _ ex_GetFuncIndex_1111]
  show ?thesis using ex_GetModuleIndex ex_GetFuncIndex_1111 by simp
qed

section \<open>Post-call sequence\<close>

lemma emit_fields [simp]:
  "hleAfterSyscall (emit e s) = hleAfterSyscall s"
  "hleAfterSyscallReschedReason (emit e s) = hleAfterSyscallReschedReason s"
  "moduleDB (emit e s) = moduleDB s"
  "unresolvedSyscalls (emit e s) = unresolvedSyscalls s"
  "trace (emit e s) = trace s @ [e]"
  by (simp_all add: emit_def)

lemma funcTable_at_emit [simp]: "funcTable_at (emit e s) m f = funcTable_at s m f"
  by (simp add: funcTable_at_def emit_def)

lemma hleFinishSyscall_eq:
  assumes "hleAfterSyscall s AND HLE_AFTER_DEBUG_BREAK \<noteq> 0 \<longrightarrow> funcTable_at s m f = Some fn"
  shows "hleFinishSyscall idle m f s = Some (s\<lparr>
      trace := trace s
        @ (if hleAfterSyscall s AND HLE_AFTER_CURRENT_CALLBACKS \<noteq> 0 then [KernelForceCallbacks] else [])
        @ (if hleAfterSyscall s AND HLE_AFTER_RUN_INTERRUPTS \<noteq> 0 then [RunOnePendingInterrupt] else [])
        @ (if hleAfterSyscall s AND HLE_AFTER_RESCHED_CALLBACKS \<noteq> 0
           then [KernelReSchedule2 True (cstr (hleAfterSyscallReschedReason s))]
           else if hleAfterSyscall s AND HLE_AFTER_RESCHED \<noteq> 0
           then [KernelReSchedule (cstr (hleAfterSyscallReschedReason s))]
           else if hleAfterSyscall s AND HLE_AFTER_ALL_CALLBACKS \<noteq> 0
           then [KernelCheckCallbacks] else [])
        @ (if hleAfterSyscall s AND HLE_AFTER_DEBUG_BREAK \<noteq> 0 \<and> ID fn \<notin> set (blacklistedNIDs idle)
           then [Core_EnableStepping True, SetDebugMode True] else []),
      hleAfterSyscall :=
        (if hleAfterSyscall s AND HLE_AFTER_DEBUG_BREAK \<noteq> 0 \<and> ID fn \<in> set (blacklistedNIDs idle)
         then HLE_AFTER_DEBUG_BREAK else HLE_AFTER_NOTHING),
      hleAfterSyscallReschedReason := (hleAfterSyscallReschedReason s)[0 := NUL]\<rparr>)"
  using assms
  by (simp add: hleFinishSyscall_def hleExecuteDebugBreak_def clear_reason_def funcTable_at_def emit_def Let_def)

lemma hleFinishSyscall_fields:
  assumes "hleAfterSyscall s AND HLE_AFTER_DEBUG_BREAK \<noteq> 0 \<longrightarrow> funcTable_at s m f = Some fn"
  shows "\<exists>s'. hleFinishSyscall idle m f s = Some s'
    \<and> trace s' = trace s
        @ (if hleAfterSyscall s AND HLE_AFTER_CURRENT_CALLBACKS \<noteq> 0 then [KernelForceCallbacks] else [])
        @ (if hleAfterSyscall s AND HLE_AFTER_RUN_INTERRUPTS \<noteq> 0 then [RunOnePendingInterrupt] else [])
        @ (if hleAfterSyscall s AND HLE_AFTER_RESCHED_CALLBACKS \<noteq> 0
           then [KernelReSchedule2 True (cstr (hleAfterSyscallReschedReason s))]
           else if hleAfterSyscall s AND HLE_AFTER_RESCHED \<noteq> 0
           then [KernelReSchedule (cstr (hleAfterSyscallReschedReason s))]
           else if hleAfterSyscall s AND HLE_AFTER_ALL_CALLBACKS \<noteq> 0
           then [KernelCheckCallbacks] else [])
        @ (if hleAfterSyscall s AND HLE_AFTER_DEBUG_BREAK \<noteq> 0 \<and> ID fn \<notin> set (blacklistedNIDs idle)
           then [Core_EnableStepping True, SetDebugMode True] else [])
    \<and> hleAfterSyscall s' =
        (if hleAfterSyscall s AND HLE_AFTER_DEBUG_BREAK \<noteq> 0 \<and> ID fn \<in> set (blacklistedNIDs idle)
         then HLE_AFTER_DEBUG_BREAK else HLE_AFTER_NOTHING)
    \<and> hleAfterSyscallReschedReason s' = (hleAfterSyscallReschedReason s)[0 := NUL]
    \<and> moduleDB s' = moduleDB s \<and> unresolvedSyscalls s' = unresolvedSyscalls s"
  unfolding hleFinishSyscall_eq [OF assms] by simp

text \<open>
  C2. With the current-callbacks, run-interrupts and reschedule bits set, the coordinator
  calls \<open>__KernelForceCallbacks\<close>, then \<open>__RunOnePendingInterrupt\<close>, then the
  reschedule with the stored reason, and after it nothing but the debugger hooks. With the
  reschedule and the reschedule-with-callbacks bits set, the only reschedule call is
  \<open>__KernelReSchedule(true, reason)\<close>: before it come at most the callback and interrupt
  calls, after it at most the debugger hooks.
\<close>

theorem hleFinishSyscall_priority:
  "(hleAfterSyscall s AND HLE_AFTER_CURRENT_CALLBACKS \<noteq> 0
      \<and> hleAfterSyscall s AND HLE_AFTER_RUN_INTERRUPTS \<noteq> 0
      \<and> hleAfterSyscall s AND HLE_AFTER_RESCHED \<noteq> 0
      \<and> funcTable_at s m f = Some fn \<longrightarrow>
      (\<exists>s' dbg. hleFinishSyscall idle m f s = Some s'
         \<and> trace s' = trace s @
              [KernelForceCallbacks, RunOnePendingInterrupt,
               if hleAfterSyscall s AND HLE_AFTER_RESCHED_CALLBACKS \<noteq> 0
               then KernelReSchedule2 True (cstr (hleAfterSyscallReschedReason s))
               else KernelReSchedule (cstr (hleAfterSyscallReschedReason s))] @ dbg
         \<and> set dbg \<subseteq> {Core_EnableStepping True, SetDebugMode True}))
   \<and> (hleAfterSyscall s AND HLE_AFTER_RESCHED \<noteq> 0
      \<and> hleAfterSyscall s AND HLE_AFTER_RESCHED_CALLBACKS \<noteq> 0
      \<and> funcTable_at s m f = Some fn \<longrightarrow>
      (\<exists>s' pre dbg. hleFinishSyscall idle m f s = Some s'
         \<and> trace s' = trace s @ pre
              @ [KernelReSchedule2 True (cstr (hleAfterSyscallReschedReason s))] @ dbg
         \<and> set pre \<subseteq> {KernelForceCallbacks, RunOnePendingInterrupt}
         \<and> set dbg \<subseteq> {Core_EnableStepping True, SetDebugMode True}))"
proof (intro conjI impI)
  let ?dbg = "if hleAfterSyscall s AND HLE_AFTER_DEBUG_BREAK \<noteq> 0 \<and> ID fn \<notin> set (blacklistedNIDs idle)
           then [Core_EnableStepping True, SetDebugMode True] else []"
  let ?pre = "(if hleAfterSyscall s AND HLE_AFTER_CURRENT_CALLBACKS \<noteq> 0 then [KernelForceCallbacks] else [])
        @ (if hleAfterSyscall s AND HLE_AFTER_RUN_INTERRUPTS \<noteq> 0 then [RunOnePendingInterrupt] else [])"
  have dbg: "set ?dbg \<subseteq> {Core_EnableStepping True, SetDebugMode True}" by auto
  have pre: "set ?pre \<subseteq> {KernelForceCallbacks, RunOnePendingInterrupt}" by auto
  {
    assume a: "hleAfterSyscall s AND HLE_AFTER_CURRENT_CALLBACKS \<noteq> 0
      \<and> hleAfterSyscall s AND HLE_AFTER_RUN_INTERRUPTS \<noteq> 0
      \<and> hleAfterSyscall s AND HLE_AFTER_RESCHED \<noteq> 0
      \<and> funcTable_at s m f = Some fn"
    then have "hleAfterSyscall s AND HLE_AFTER_DEBUG_BREAK \<noteq> 0 \<longrightarrow> funcTable_at s m f = Some fn"
      by simp
    from hleFinishSyscall_fields [OF this, of idle] obtain s' where
      s': "hleFinishSyscall idle m f s = Some s'"
      and "trace s' = trace s
        @ (if hleAfterSyscall s AND HLE_AFTER_CURRENT_CALLBACKS \<noteq> 0 then [KernelForceCallbacks] else [])
        @ (if hleAfterSyscall s AND HLE_AFTER_RUN_INTERRUPTS \<noteq> 0 then [RunOnePendingInterrupt] else [])
        @ (if hleAfterSyscall s AND HLE_AFTER_RESCHED_CALLBACKS \<noteq> 0
           then [KernelReSchedule2 True (cstr (hleAfterSyscallReschedReason s))]
           else if hleAfterSyscall s AND HLE_AFTER_RESCHED \<noteq> 0
           then [KernelReSchedule (cstr (hleAfterSyscallReschedReason s))]
           else if hleAfterSyscall s AND HLE_AFTER_ALL_CALLBACKS \<noteq> 0
           then [KernelCheckCallbacks] else [])
        @ ?dbg"
      by blast
    with a have "trace s' = trace s @
              [KernelForceCallbacks, RunOnePendingInterrupt,
               if hleAfterSyscall s AND HLE_AFTER_RESCHED_CALLBACKS \<noteq> 0
               then KernelReSchedule2 True (cstr (hleAfterSyscallReschedReason s))
               else KernelReSchedule (cstr (hleAfterSyscallReschedReason s))] @ ?dbg"
      by simp
    with s' dbg show "\<exists>s' dbg. hleFinishSyscall idle m f s = Some s'
         \<and> trace s' = trace s @
              [KernelForceCallbacks, RunOnePendingInterrupt,
               if hleAfterSyscall s AND HLE_AFTER_RESCHED_CALLBACKS \<noteq> 0
               then KernelReSchedule2 True (cstr (hleAfterSyscallReschedReason s))
               else KernelReSchedule (cstr (hleAfterSyscallReschedReason s))] @ dbg
         \<and> set dbg \<subseteq> {Core_EnableStepping True, SetDebugMode True}"
      by blast
  }
  {
    assume a: "hleAfterSyscall s AND HLE_AFTER_RESCHED \<noteq> 0
      \<and> hleAfterSyscall s AND HLE_AFTER_RESCHED_CALLBACKS \<noteq> 0
      \<and> funcTable_at s m f = Some fn"
    then have "hleAfterSyscall s AND HLE_AFTER_DEBUG_BREAK \<noteq> 0 \<longrightarrow> funcTable_at s m f = Some fn"
      by simp
    from hleFinishSyscall_fields [OF this, of idle] obtain s' where
      s': "hleFinishSyscall idle m f s = Some s'"
      and "trace s' = trace s
        @ (if hleAfterSyscall s AND HLE_AFTER_CURRENT_CALLBACKS \<noteq> 0 then [KernelForceCallbacks] else [])
        @ (if hleAfterSyscall s AND HLE_AFTER_RUN_INTERRUPTS \<noteq> 0 then [RunOnePendingInterrupt] else [])
        @ (if hleAfterSyscall s AND HLE_AFTER_RESCHED_CALLBACKS \<noteq> 0
           then [KernelReSchedule2 True (cstr (hleAfterSyscallReschedReason s))]
           else if hleAfterSyscall s AND HLE_AFTER_RESCHED \<noteq> 0
           then [KernelReSchedule (cstr (hleAfterSyscallReschedReason s))]
           else if hleAfterSyscall s AND HLE_AFTER_ALL_CALLBACKS \<noteq> 0
           then [KernelCheckCallbacks] else [])
        @ ?dbg"
      by blast
    with a have "trace s' = trace s @ ?pre
          @ [KernelReSchedule2 True (cstr (hleAfterSyscallReschedReason s))] @ ?dbg"
      by simp
    with s' dbg pre show "\<exists>s' pre dbg. hleFinishSyscall idle m f s = Some s'
         \<and> trace s' = trace s @ pre
              @ [KernelReSchedule2 True (cstr (hleAfterSyscallReschedReason s))] @ dbg
         \<and> set pre \<subseteq> {KernelForceCallbacks, RunOnePendingInterrupt}
         \<and> set dbg \<subseteq> {Core_EnableStepping True, SetDebugMode True}"
      by blast
  }
qed

lemma ex_pending_simps:
  "hleAfterSyscall (ex_pending bits) = bits"
  "trace (ex_pending bits) = []"
  "cstr (hleAfterSyscallReschedReason (ex_pending bits)) = ''wait''"
  "funcTable_at (ex_pending bits) 0 1 = Some ex_fn1"
  by (simp_all add: ex_pending_def ex_state_def cstr_def NUL_def funcTable_at_def at_def ex_table_def)

theorem hleFinishSyscall_priority_witness:
  "(\<exists>s' dbg. hleFinishSyscall 0 0 1 (ex_pending 0x13) = Some s'
      \<and> trace s' = [KernelForceCallbacks, RunOnePendingInterrupt, KernelReSchedule ''wait''] @ dbg
      \<and> set dbg \<subseteq> {Core_EnableStepping True, SetDebugMode True})
   \<and> (\<exists>s' pre dbg. hleFinishSyscall 0 0 1 (ex_pending 0x09) = Some s'
      \<and> trace s' = pre @ [KernelReSchedule2 True ''wait''] @ dbg
      \<and> set pre \<subseteq> {KernelForceCallbacks, RunOnePendingInterrupt}
      \<and> set dbg \<subseteq> {Core_EnableStepping True, SetDebugMode True})"
  using hleFinishSyscall_priority [of "ex_pending 0x13" 0 1 ex_fn1 0, THEN conjunct1]
    hleFinishSyscall_priority [of "ex_pending 0x09" 0 1 ex_fn1 0, THEN conjunct2]
  by (simp add: ex_pending_simps HLE_AFTER_CURRENT_CALLBACKS_def HLE_AFTER_RUN_INTERRUPTS_def
      HLE_AFTER_RESCHED_def HLE_AFTER_RESCHED_CALLBACKS_def)

section \<open>Dispatch\<close>

lemma hleFinishSyscall_undefined:
  assumes "hleAfterSyscall s AND HLE_AFTER_DEBUG_BREAK \<noteq> 0" "funcTable_at s m f = None"
  shows "hleFinishSyscall idle m f s = None"
  using assms by (simp add: hleFinishSyscall_def Let_def)

lemma hleFinishSyscall_mask:
  assumes "hleFinishSyscall idle m f s = Some s'"
  shows "hleAfterSyscall s' = HLE_AFTER_NOTHING \<or> hleAfterSyscall s' = HLE_AFTER_DEBUG_BREAK"
proof (cases "funcTable_at s m f")
  case None
  with assms hleFinishSyscall_undefined [of s m f idle]
  have "\<not> hleAfterSyscall s AND HLE_AFTER_DEBUG_BREAK \<noteq> 0" by auto
  then have "hleAfterSyscall s AND HLE_AFTER_DEBUG_BREAK \<noteq> 0 \<longrightarrow> funcTable_at s m f = Some undefined"
    by simp
  from hleFinishSyscall_fields [OF this, of idle] assms show ?thesis by auto
next
  case (Some fn)
  then have "hleAfterSyscall s AND HLE_AFTER_DEBUG_BREAK \<noteq> 0 \<longrightarrow> funcTable_at s m f = Some fn"
    by simp
  from hleFinishSyscall_fields [OF this, of idle] assms show ?thesis by auto
qed

lemma CallSyscall_invoke:
  assumes "funcnum op \<noteq> 0xfff" "op \<noteq> 0xffff"
    and "funcTable_at s (uint (modulenum op)) (uint (funcnum op)) = Some fn" "func fn = Some p"
  shows "CallSyscall host idle op s =
     (if hleAfterSyscall (host p s) \<noteq> HLE_AFTER_NOTHING
      then hleFinishSyscall idle (uint (modulenum op)) (uint (funcnum op)) (host p s)
      else Some (host p s))"
  using assms by (simp add: CallSyscall_def Let_def)

lemma CallSyscall_unimplemented:
  assumes "funcnum op \<noteq> 0xfff" "op \<noteq> 0xffff"
    and "funcTable_at s (uint (modulenum op)) (uint (funcnum op)) = Some fn" "func fn = None"
  shows "CallSyscall host idle op s =
     Some (s\<lparr>trace := trace s @ [ERROR_LOG ''Unimplemented HLE function %s'' [S (HLEFunction.name fn)]]\<rparr>)"
  using assms by (simp add: CallSyscall_def emit_def)

lemma CallSyscall_sentinel:
  assumes "funcnum op = 0xfff \<or> op = 0xffff"
    and "at (moduleDB s) (uint (modulenum op)) = Some module"
  shows "CallSyscall host idle op s =
     Some (s\<lparr>trace := trace s @ [DbgAssertMsg ''Unknown syscall'',
        ERROR_LOG ''Unknown syscall: Module: %s'' [S (HLEModule.name module)]]\<rparr>)"
  using assms by (simp add: CallSyscall_def emit_def dbg_assert_msg_def)

lemma CallSyscall_sentinel_undefined:
  assumes "funcnum op = 0xfff \<or> op = 0xffff"
    and "at (moduleDB s) (uint (modulenum op)) = None"
  shows "CallSyscall host idle op s = None"
  using assms by (simp add: CallSyscall_def emit_def dbg_assert_msg_def)

lemma CallSyscall_mask:
  assumes "CallSyscall host idle op s = Some s'"
  shows "hleAfterSyscall s' = hleAfterSyscall s
       \<or> hleAfterSyscall s' = HLE_AFTER_NOTHING \<or> hleAfterSyscall s' = HLE_AFTER_DEBUG_BREAK"
proof (cases "funcnum op = 0xfff \<or> op = 0xffff")
  case True
  with assms show ?thesis
    by (cases "at (moduleDB s) (uint (modulenum op))")
      (simp_all add: CallSyscall_sentinel CallSyscall_sentinel_undefined, auto)
next
  case False
  then have ns: "funcnum op \<noteq> 0xfff" "op \<noteq> 0xffff" by simp_all
  show ?thesis
  proof (cases "funcTable_at s (uint (modulenum op)) (uint (funcnum op))")
    case None
    with assms ns show ?thesis by (simp add: CallSyscall_def)
  next
    case (Some fn)
    show ?thesis
    proof (cases "func fn")
      case None
      from assms show ?thesis
        unfolding CallSyscall_unimplemented [OF ns Some None] by auto
    next
      case (Some p)
      from assms show ?thesis
        unfolding CallSyscall_invoke [OF ns \<open>funcTable_at s _ _ = Some fn\<close> Some]
        by (auto split: if_splits dest: hleFinishSyscall_mask)
    qed
  qed
qed

lemma entry_states_mask:
  "hleAfterSyscall s = HLE_AFTER_NOTHING \<or> hleAfterSyscall s = HLE_AFTER_DEBUG_BREAK \<Longrightarrow>
   e \<in> set (entry_states host idle ops s) \<Longrightarrow>
   hleAfterSyscall e = HLE_AFTER_NOTHING \<or> hleAfterSyscall e = HLE_AFTER_DEBUG_BREAK"
proof (induction ops arbitrary: s)
  case Nil
  then show ?case by simp
next
  case (Cons op ops)
  show ?case
  proof (cases "e = s")
    case True
    with Cons.prems show ?thesis by simp
  next
    case False
    with Cons.prems obtain s1 where s1: "CallSyscall host idle op s = Some s1"
      and e: "e \<in> set (entry_states host idle ops s1)"
      by (cases "CallSyscall host idle op s") auto
    from CallSyscall_mask [OF s1] Cons.prems(1)
    have "hleAfterSyscall s1 = HLE_AFTER_NOTHING \<or> hleAfterSyscall s1 = HLE_AFTER_DEBUG_BREAK"
      by auto
    from Cons.IH [OF this e] show ?thesis .
  qed
qed

text \<open>
  C10. A dispatch that takes the sentinel path or finds a null function pointer leaves
  \<open>hleAfterSyscall\<close> as it was; a dispatch that invokes a host function ends with
  \<open>hleAfterSyscall\<close> equal to \<open>HLE_AFTER_NOTHING\<close> or to \<open>HLE_AFTER_DEBUG_BREAK\<close>,
  whatever the host function did. Hence, in a run of dispatches with nothing touching the
  state between them (the requests are made inside host functions only) that starts with
  the mask empty or equal to the debug-break bit, the mask has one of these two values at
  every entry to \<open>CallSyscall\<close>.
\<close>

theorem hleAfterSyscall_at_entry:
  "(CallSyscall host idle op s = Some s'
      \<and> (funcnum op = 0xfff \<or> op = 0xffff
          \<or> (\<exists>fn. funcTable_at s (uint (modulenum op)) (uint (funcnum op)) = Some fn
                \<and> func fn = None))
      \<longrightarrow> hleAfterSyscall s' = hleAfterSyscall s)
   \<and> (CallSyscall host idle op s = Some s'
      \<and> funcnum op \<noteq> 0xfff \<and> op \<noteq> 0xffff
      \<and> (\<exists>fn p. funcTable_at s (uint (modulenum op)) (uint (funcnum op)) = Some fn
                \<and> func fn = Some p)
      \<longrightarrow> hleAfterSyscall s' = HLE_AFTER_NOTHING \<or> hleAfterSyscall s' = HLE_AFTER_DEBUG_BREAK)
   \<and> (hleAfterSyscall s = HLE_AFTER_NOTHING \<or> hleAfterSyscall s = HLE_AFTER_DEBUG_BREAK
      \<longrightarrow> (\<forall>e \<in> set (entry_states host idle ops s).
             hleAfterSyscall e = HLE_AFTER_NOTHING \<or> hleAfterSyscall e = HLE_AFTER_DEBUG_BREAK))"
proof (intro conjI impI ballI)
  assume a: "CallSyscall host idle op s = Some s'
      \<and> (funcnum op = 0xfff \<or> op = 0xffff
          \<or> (\<exists>fn. funcTable_at s (uint (modulenum op)) (uint (funcnum op)) = Some fn
                \<and> func fn = None))"
  show "hleAfterSyscall s' = hleAfterSyscall s"
  proof (cases "funcnum op = 0xfff \<or> op = 0xffff")
    case True
    with a show ?thesis
      by (cases "at (moduleDB s) (uint (modulenum op))")
        (simp_all add: CallSyscall_sentinel CallSyscall_sentinel_undefined, auto)
  next
    case False
    with a obtain fn where fn: "funcTable_at s (uint (modulenum op)) (uint (funcnum op)) = Some fn"
      "func fn = None" by auto
    from False have "funcnum op \<noteq> 0xfff" "op \<noteq> 0xffff" by simp_all
    from CallSyscall_unimplemented [OF this fn, of host idle] a show ?thesis by auto
  qed
next
  assume a: "CallSyscall host idle op s = Some s'
      \<and> funcnum op \<noteq> 0xfff \<and> op \<noteq> 0xffff
      \<and> (\<exists>fn p. funcTable_at s (uint (modulenum op)) (uint (funcnum op)) = Some fn
                \<and> func fn = Some p)"
  then obtain fn p where fn: "funcTable_at s (uint (modulenum op)) (uint (funcnum op)) = Some fn"
      "func fn = Some p" by auto
  from a have "funcnum op \<noteq> 0xfff" "op \<noteq> 0xffff" by simp_all
  from CallSyscall_invoke [OF this fn, of host idle] a
  show "hleAfterSyscall s' = HLE_AFTER_NOTHING \<or> hleAfterSyscall s' = HLE_AFTER_DEBUG_BREAK"
    by (auto split: if_splits dest: hleFinishSyscall_mask [OF sym])
next
  fix e
  assume "hleAfterSyscall s = HLE_AFTER_NOTHING \<or> hleAfterSyscall s = HLE_AFTER_DEBUG_BREAK"
    "e \<in> set (entry_states host idle ops s)"
  then show "hleAfterSyscall e = HLE_AFTER_NOTHING \<or> hleAfterSyscall e = HLE_AFTER_DEBUG_BREAK"
    by (rule entry_states_mask)
qed

lemma ex_decode:
  "funcnum 0x0c = 0" "modulenum 0x0c = 0"
  "funcnum 0x4c = 1" "modulenum 0x4c = 0"
  "funcnum 0x8c = 2" "modulenum 0x8c = 0"
  by (simp_all add: funcnum_def modulenum_def callno_def)

lemma ex_funcTable_at:
  "moduleDB s = moduleDB ex_state \<Longrightarrow> funcTable_at s 0 0 = Some ex_fn0"
  "moduleDB s = moduleDB ex_state \<Longrightarrow> funcTable_at s 0 1 = Some ex_fn1"
  "moduleDB s = moduleDB ex_state \<Longrightarrow> funcTable_at s 0 2 = Some ex_fn2"
  by (simp_all add: funcTable_at_def at_def ex_state_def ex_table_def)

lemma ex_table_entries:
  "func ex_fn0 = Some 0" "ID ex_fn0 = NID_SUSPEND_INTR"
  "func ex_fn1 = Some 1" "ID ex_fn1 = 0x1111"
  "func ex_fn2 = None" "HLEFunction.name ex_fn2 = ''sceKernelBar''"
  by (simp_all add: ex_fn0_def ex_fn1_def ex_fn2_def NID_SUSPEND_INTR_def)

lemma replicate_update_same: "(replicate n x)[i := x] = replicate n x"
  by (induction n arbitrary: i) (auto split: nat.splits)

lemma ex_dispatch_1: "CallSyscall ex_host ex_NID_IDLE 0x0c ex_state = Some ex_state1"
proof -
  have db: "moduleDB (ex_host 0 ex_state) = moduleDB ex_state"
    by (simp add: ex_host_def hleDebugBreak_def)
  have bit: "hleAfterSyscall (ex_host 0 ex_state) = HLE_AFTER_DEBUG_BREAK"
    by (simp add: ex_host_def hleDebugBreak_def ex_state_def)
  have "CallSyscall ex_host ex_NID_IDLE 0x0c ex_state =
      hleFinishSyscall ex_NID_IDLE 0 0 (ex_host 0 ex_state)"
    using CallSyscall_invoke [of "0x0c" ex_state ex_fn0 0 ex_host ex_NID_IDLE]
    by (simp add: ex_decode ex_funcTable_at ex_table_entries bit HLE_AFTER_DEBUG_BREAK_def
        HLE_AFTER_NOTHING_def)
  also have "\<dots> = Some ex_state1"
    using hleFinishSyscall_eq [of "ex_host 0 ex_state" 0 0 ex_fn0 ex_NID_IDLE]
    by (simp add: ex_funcTable_at db bit ex_table_entries blacklistedNIDs_def
        HLE_AFTER_DEBUG_BREAK_def HLE_AFTER_CURRENT_CALLBACKS_def HLE_AFTER_RUN_INTERRUPTS_def
        HLE_AFTER_RESCHED_def HLE_AFTER_RESCHED_CALLBACKS_def HLE_AFTER_ALL_CALLBACKS_def
        ex_host_def hleDebugBreak_def ex_state_def ex_state1_def replicate_update_same)
  finally show ?thesis .
qed






lemma ex_state1_fields:
  "moduleDB ex_state1 = moduleDB ex_state" "hleAfterSyscall ex_state1 = HLE_AFTER_DEBUG_BREAK"
  "trace ex_state1 = []"
  by (simp_all add: ex_state1_def ex_state_def)

lemma ex_dispatch_2: "CallSyscall ex_host ex_NID_IDLE 0x4c ex_state1 = Some ex_state2"
proof -
  have "CallSyscall ex_host ex_NID_IDLE 0x4c ex_state1 =
      hleFinishSyscall ex_NID_IDLE 0 1 ex_state1"
    using CallSyscall_invoke [of "0x4c" ex_state1 ex_fn1 1 ex_host ex_NID_IDLE]
    by (simp add: ex_decode ex_funcTable_at ex_table_entries ex_state1_fields ex_host_def
        HLE_AFTER_DEBUG_BREAK_def HLE_AFTER_NOTHING_def)
  also have "\<dots> = Some ex_state2"
    using hleFinishSyscall_eq [of ex_state1 0 1 ex_fn1 ex_NID_IDLE]
    by (simp add: ex_funcTable_at ex_state1_fields ex_table_entries blacklistedNIDs_def
        HLE_AFTER_DEBUG_BREAK_def HLE_AFTER_CURRENT_CALLBACKS_def HLE_AFTER_RUN_INTERRUPTS_def
        HLE_AFTER_RESCHED_def HLE_AFTER_RESCHED_CALLBACKS_def HLE_AFTER_ALL_CALLBACKS_def
        HLE_AFTER_NOTHING_def NID_SUSPEND_INTR_def NID_RESUME_INTR_def ex_NID_IDLE_def
        ex_state_def ex_state1_def ex_state2_def replicate_update_same)
  finally show ?thesis .
qed

lemma ex_dispatch_3:
  "CallSyscall ex_host ex_NID_IDLE 0x8c ex_state2 =
     Some (ex_state2\<lparr>trace := trace ex_state2 @
        [ERROR_LOG ''Unimplemented HLE function %s'' [S ''sceKernelBar'']]\<rparr>)"
  using CallSyscall_unimplemented [of "0x8c" ex_state2 ex_fn2 ex_host ex_NID_IDLE]
  by (simp add: ex_decode ex_funcTable_at ex_table_entries ex_state2_def)




theorem hleAfterSyscall_at_entry_witness:
  "entry_states ex_host ex_NID_IDLE [0x0c, 0x4c, 0x8c] ex_state = [ex_state, ex_state1, ex_state2]
   \<and> (hleAfterSyscall ex_state = HLE_AFTER_NOTHING
        \<or> hleAfterSyscall ex_state = HLE_AFTER_DEBUG_BREAK)
   \<and> (hleAfterSyscall ex_state1 = HLE_AFTER_NOTHING
        \<or> hleAfterSyscall ex_state1 = HLE_AFTER_DEBUG_BREAK)
   \<and> (hleAfterSyscall ex_state2 = HLE_AFTER_NOTHING
        \<or> hleAfterSyscall ex_state2 = HLE_AFTER_DEBUG_BREAK)
   \<and> hleAfterSyscall ex_state1 = HLE_AFTER_DEBUG_BREAK
   \<and> (\<exists>s'. CallSyscall ex_host ex_NID_IDLE 0x8c ex_state2 = Some s'
         \<and> hleAfterSyscall s' = hleAfterSyscall ex_state2)"
proof -
  have es: "entry_states ex_host ex_NID_IDLE [0x0c, 0x4c, 0x8c] ex_state = [ex_state, ex_state1, ex_state2]"
    by (simp add: ex_dispatch_1 ex_dispatch_2 ex_dispatch_3)
  have "hleAfterSyscall ex_state = HLE_AFTER_NOTHING"
    by (simp add: ex_state_def HLE_AFTER_NOTHING_def)
  with hleAfterSyscall_at_entry [of ex_host ex_NID_IDLE _ ex_state _ "[0x0c, 0x4c, 0x8c]",
      THEN conjunct2, THEN conjunct2]
  have inv: "\<forall>e \<in> set [ex_state, ex_state1, ex_state2].
         hleAfterSyscall e = HLE_AFTER_NOTHING \<or> hleAfterSyscall e = HLE_AFTER_DEBUG_BREAK"
    unfolding es by blast
  obtain s' where s': "CallSyscall ex_host ex_NID_IDLE 0x8c ex_state2 = Some s'"
    using ex_dispatch_3 by simp
  with hleAfterSyscall_at_entry [of ex_host ex_NID_IDLE "0x8c" ex_state2 s', THEN conjunct1]
  have "hleAfterSyscall s' = hleAfterSyscall ex_state2"
    by (simp add: ex_decode ex_funcTable_at ex_table_entries ex_state2_def)
  with es inv s' show ?thesis by (auto simp: ex_state1_fields)
qed

lemma at_unat: "at xs (uint w) = (if unat w < length xs then Some (xs ! unat w) else None)"
  by (simp add: at_def)

text \<open>
  C4 (amended). For every opcode whose function number is \<open>0xfff\<close>, and for the opcode
  \<open>0xffff\<close>, provided the module number of the opcode is below the size of the registry:
  the dispatch records the failed assertion, logs one error with the name of the module at
  that position, and returns; no host function is invoked and nothing else changes.
\<close>

theorem CallSyscall_sentinel_aborts:
  assumes "funcnum op = 0xfff \<or> op = 0xffff"
    and "unat (modulenum op) < length (moduleDB s)"
  shows "CallSyscall host idle op s =
     Some (s\<lparr>trace := trace s @
        [DbgAssertMsg ''Unknown syscall'',
         ERROR_LOG ''Unknown syscall: Module: %s''
           [S (HLEModule.name (moduleDB s ! unat (modulenum op)))]]\<rparr>)"
  using assms by (simp add: CallSyscall_sentinel at_unat)

text \<open>
  The proviso is needed. The registry \<open>ex_state\<close> has one module; the opcode \<open>0x0007FFCC\<close>
  has function number \<open>0xfff\<close> and module number 1, and the dispatch reads \<open>moduleDB[1]\<close>.
\<close>

lemma ex_decode_7FFCC: "funcnum 0x0007FFCC = 0xfff" "modulenum 0x0007FFCC = 1"
  by (simp_all add: funcnum_def modulenum_def callno_def)

theorem CallSyscall_sentinel_counterexample:
  "funcnum 0x0007FFCC = 0xfff \<and> CallSyscall ex_host ex_NID_IDLE 0x0007FFCC ex_state = None"
proof -
  have "at (moduleDB ex_state) (uint (modulenum 0x0007FFCC)) = None"
    by (simp add: ex_decode_7FFCC at_def ex_state_def)
  then show ?thesis
    by (simp add: ex_decode_7FFCC(1) CallSyscall_sentinel_undefined)
qed

lemma ex_decode_3FFCC: "funcnum 0x0003FFCC = 0xfff" "modulenum 0x0003FFCC = 0"
  by (simp_all add: funcnum_def modulenum_def callno_def)

theorem CallSyscall_sentinel_aborts_witness:
  "funcnum 0x0003FFCC = 0xfff \<and> unat (modulenum 0x0003FFCC) < length (moduleDB ex_state)
   \<and> CallSyscall ex_host ex_NID_IDLE 0x0003FFCC ex_state =
     Some (ex_state\<lparr>trace :=
        [DbgAssertMsg ''Unknown syscall'',
         ERROR_LOG ''Unknown syscall: Module: %s'' [S ''Kernel_Library'']]\<rparr>)"
  using CallSyscall_sentinel_aborts [of "0x0003FFCC" ex_state ex_host ex_NID_IDLE]
  by (simp add: ex_decode_3FFCC ex_state_def)

text \<open>
  C8. When the slot \<open>moduleDB[modulenum].funcTable[funcnum]\<close> of the opcode exists and its
  function pointer is null, the dispatch returns the state it was given with one
  \<open>ERROR_LOG\<close> call added to the trace (after the failed assertion, when the opcode is also a
  sentinel): \<open>hleAfterSyscall\<close>, the reason buffer, the registry and the list of unresolved
  syscalls are the same, there is no \<open>Memory::Write_U32\<close> call, and the result does not
  depend on \<open>host\<close>.
\<close>

theorem CallSyscall_null_func:
  assumes "funcTable_at s (uint (modulenum op)) (uint (funcnum op)) = Some fn"
    and "func fn = None"
  shows "CallSyscall host idle op s =
     Some (s\<lparr>trace := trace s @
        (if funcnum op = 0xfff \<or> op = 0xffff
         then [DbgAssertMsg ''Unknown syscall'',
               ERROR_LOG ''Unknown syscall: Module: %s''
                 [S (HLEModule.name (moduleDB s ! unat (modulenum op)))]]
         else [ERROR_LOG ''Unimplemented HLE function %s'' [S (HLEFunction.name fn)]])\<rparr>)"
proof (cases "funcnum op = 0xfff \<or> op = 0xffff")
  case True
  from assms(1) have "unat (modulenum op) < length (moduleDB s)"
    by (auto simp: funcTable_at_def at_unat split: option.splits if_splits)
  with True show ?thesis by (simp add: CallSyscall_sentinel at_unat)
next
  case False
  then have "funcnum op \<noteq> 0xfff" "op \<noteq> 0xffff" by simp_all
  from CallSyscall_unimplemented [OF this assms] False show ?thesis by simp
qed

theorem CallSyscall_null_func_witness:
  "funcTable_at ex_state (uint (modulenum 0x8c)) (uint (funcnum 0x8c)) = Some ex_fn2
   \<and> func ex_fn2 = None
   \<and> CallSyscall ex_host ex_NID_IDLE 0x8c ex_state =
     Some (ex_state\<lparr>trace :=
        [ERROR_LOG ''Unimplemented HLE function %s'' [S ''sceKernelBar'']]\<rparr>)"
  using CallSyscall_null_func [of ex_state "0x8c" ex_fn2 ex_host ex_NID_IDLE]
  by (simp add: ex_decode ex_funcTable_at ex_table_entries) (simp add: ex_state_def)

lemma sentinel_bits:
  fixes m :: nat
  defines "op \<equiv> (word_of_int (0x0003FFCC OR push_bit 18 (int m)) :: u32)"
  shows "funcnum op = 0xfff" "modulenum op = take_bit 8 (word_of_nat m)" "take_bit 6 op = 0xC"
proof -
  have k: "(0x0003FFCC :: u32) = push_bit 2 (mask 2) OR push_bit 6 (mask 12)"
    by (simp add: mask_eq_exp_minus_1)
  have op: "op = (push_bit 2 (mask 2) OR push_bit 6 (mask 12)) OR push_bit 18 (word_of_nat m)"
  proof -
    have "op = 0x0003FFCC OR push_bit 18 (word_of_nat m)"
      unfolding op_def by (simp add: of_int_or_eq of_int_push_bit flip: push_bit_of_int)
    then show ?thesis by (simp only: k)
  qed
  have c: "(0xc :: u32) = push_bit 2 (mask 2)" by (simp add: mask_eq_exp_minus_1)
  have k1: "(0xFFFFF :: u32) = mask 20" by (simp add: mask_eq_exp_minus_1)
  have k2: "(0xFFF :: u32) = mask 12" by (simp add: mask_eq_exp_minus_1)
  have k3: "(0xFF000 :: u32) = push_bit 12 (mask 8)" by (simp add: mask_eq_exp_minus_1)
  show "funcnum op = 0xfff"
    unfolding funcnum_def callno_def op k1 k2
    by (rule bit_eqI) (auto simp add: bit_simps)
  show "modulenum op = take_bit 8 (word_of_nat m)"
    unfolding modulenum_def callno_def op k1 k3
    by (rule bit_eqI) (auto simp add: bit_simps)
  show "take_bit 6 op = 0xC"
    unfolding op c
    by (rule bit_eqI) (auto simp add: bit_simps)
qed

lemma unat_take_bit_8_le: "unat (take_bit 8 (word_of_nat m :: u32)) \<le> m"
proof -
  have "unat (take_bit 8 (word_of_nat m :: u32)) = take_bit 8 (unat (word_of_nat m :: u32))"
    by (simp add: unsigned_take_bit_eq)
  also have "\<dots> \<le> unat (word_of_nat m :: u32)" by (rule take_bit_nat_less_eq_self)
  also have "\<dots> \<le> m" by (simp add: unat_of_nat)
  finally show ?thesis .
qed

lemma unat_take_bit_8_small: "m < 256 \<Longrightarrow> unat (take_bit 8 (word_of_nat m :: u32)) = m"
  by (simp add: unsigned_take_bit_eq unat_of_nat take_bit_nat_eq_self)

text \<open>
  C5 (amended). When the module is found and the function is not, \<open>GetSyscallOp\<close> returns
  an opcode whose low six bits are \<open>0x0c\<close>, the same as for a valid call, and whose function
  number is \<open>0xfff\<close>. The dispatcher takes its sentinel path on that function number: it
  logs one error with a module name (the name asked for, when the module index is below
  256) and returns without invoking a host function.
\<close>

theorem GetSyscallOp_unresolved_function:
  assumes "GetModuleIndex nm s = m" "m \<noteq> -1" "GetFuncIndex m nib s = Some (-1)"
  shows "\<exists>op. GetSyscallOp nm nib s = Some (op, s)
     \<and> take_bit 6 op = 0x0c \<and> funcnum op = 0xfff
     \<and> CallSyscall host idle op s =
          Some (s\<lparr>trace := trace s @
            [DbgAssertMsg ''Unknown syscall'',
             ERROR_LOG ''Unknown syscall: Module: %s''
               [S (HLEModule.name (moduleDB s ! unat (modulenum op)))]]\<rparr>)
     \<and> (m < 256 \<longrightarrow> HLEModule.name (moduleDB s ! unat (modulenum op)) = nm)"
proof -
  note found = GetModuleIndex_found [OF assms(1,2)]
  define op :: u32 where "op = word_of_int (0x0003FFCC OR push_bit 18 m)"
  have op': "op = word_of_int (0x0003FFCC OR push_bit 18 (int (nat m)))"
    using found(1) by (simp add: op_def)
  note b = sentinel_bits [of "nat m", folded op']
  have get: "GetSyscallOp nm nib s = Some (op, s)"
    using assms by (simp add: GetSyscallOp_def op_def)
  have le: "unat (modulenum op) \<le> nat m"
    unfolding b(2) by (rule unat_take_bit_8_le)
  with found(2) have lt: "unat (modulenum op) < length (moduleDB s)" by simp
  define module where "module = moduleDB s ! unat (modulenum op)"
  have call: "CallSyscall host idle op s =
          Some (s\<lparr>trace := trace s @
            [DbgAssertMsg ''Unknown syscall'',
             ERROR_LOG ''Unknown syscall: Module: %s'' [S (HLEModule.name module)]]\<rparr>)"
    using lt b(1) by (simp add: CallSyscall_sentinel at_unat module_def)
  have "HLEModule.name module = nm" if "m < 256"
  proof -
    from that found(1) have "nat m < 256" by simp
    then have "unat (modulenum op) = nat m"
      unfolding b(2) by (rule unat_take_bit_8_small)
    with found(4) show ?thesis by (simp add: module_def)
  qed
  with get b(1,3) call show ?thesis
    unfolding module_def by (intro exI [where x = op]) simp
qed

text \<open>
  The low six bits do not tell the sentinel from a valid call: in \<open>ex_state\<close> the opcode for
  the unknown NID \<open>0x9999\<close> and the opcode for the registered NID \<open>0x1111\<close> agree on them.
\<close>

lemma ex_GetFuncIndex_9999: "GetFuncIndex 0 0x9999 ex_state = Some (-1)"
  by (simp add: GetFuncIndex_def GetFuncIndex_from.simps at_def ex_state_def ex_table_def
      ex_fn0_def ex_fn1_def ex_fn2_def)

theorem GetSyscallOp_low_bits_counterexample:
  "GetSyscallOp ''Kernel_Library'' 0x9999 ex_state = Some (0x0003FFCC, ex_state)
   \<and> GetSyscallOp ''Kernel_Library'' 0x1111 ex_state = Some (0x0000004C, ex_state)
   \<and> take_bit 6 (0x0003FFCC :: u32) = take_bit 6 (0x0000004C :: u32)
   \<and> take_bit 6 (0x0003FFCC :: u32) = 0x0C"
  by (simp add: GetSyscallOp_def ex_GetModuleIndex ex_GetFuncIndex_1111 ex_GetFuncIndex_9999)

theorem GetSyscallOp_unresolved_function_witness:
  "GetModuleIndex ''Kernel_Library'' ex_state = 0 \<and> GetFuncIndex 0 0x9999 ex_state = Some (-1)
   \<and> (\<exists>op. GetSyscallOp ''Kernel_Library'' 0x9999 ex_state = Some (op, ex_state)
     \<and> take_bit 6 op = 0x0c \<and> funcnum op = 0xfff
     \<and> CallSyscall ex_host ex_NID_IDLE op ex_state =
          Some (ex_state\<lparr>trace := trace ex_state @
            [DbgAssertMsg ''Unknown syscall'',
             ERROR_LOG ''Unknown syscall: Module: %s''
               [S (HLEModule.name (moduleDB ex_state ! unat (modulenum op)))]]\<rparr>)
     \<and> HLEModule.name (moduleDB ex_state ! unat (modulenum op)) = ''Kernel_Library'')"
  using GetSyscallOp_unresolved_function [OF ex_GetModuleIndex _ ex_GetFuncIndex_9999,
      of ex_host ex_NID_IDLE]
  by (simp add: ex_GetModuleIndex ex_GetFuncIndex_9999)

section \<open>Patching and resolving\<close>

lemma GetModuleIndex_emit [simp]: "GetModuleIndex nm (emit e s) = GetModuleIndex nm s"
  by (simp add: GetModuleIndex_def)

lemma GetFuncIndex_emit [simp]: "GetFuncIndex m nib (emit e s) = GetFuncIndex m nib s"
  by (simp add: GetFuncIndex_def)

lemma GetSyscallOp_emit:
  assumes "GetModuleIndex nm s \<noteq> -1" "GetSyscallOp nm nib s = Some (op, s')"
  shows "s' = s" "GetSyscallOp nm nib (emit e s) = Some (op, emit e s)"
  using assms by (auto simp: GetSyscallOp_def Let_def split: option.splits if_splits)

text \<open>
  C6. \<open>WriteSyscall\<close> with NID 0 writes \<open>MIPS_MAKE_JR_RA()\<close> at the address and
  \<open>MIPS_MAKE_NOP()\<close> at the address plus 4, whatever the registry holds. With another NID
  and a module that \<open>GetModuleIndex\<close> finds, it writes \<open>MIPS_MAKE_JR_RA()\<close> at the address
  and the opcode of \<open>GetSyscallOp\<close> at the address plus 4. With a module that is not found
  it writes nothing and appends one entry to \<open>unresolvedSyscalls\<close>: the first 31 characters
  of the module name, the address and the NID.
\<close>

theorem WriteSyscall_cases:
  "(nib = 0 \<longrightarrow>
      WriteSyscall U nm nib address s =
        Some (s\<lparr>trace := trace s @
          [Write_U32 (MIPS_MAKE_JR_RA U) address, Write_U32 (MIPS_MAKE_NOP U) (address + 4)]\<rparr>))
   \<and> (nib \<noteq> 0 \<and> GetModuleIndex nm s \<noteq> -1 \<and> GetSyscallOp nm nib s = Some (op, s) \<longrightarrow>
      WriteSyscall U nm nib address s =
        Some (s\<lparr>trace := trace s @
          [Write_U32 (MIPS_MAKE_JR_RA U) address, Write_U32 op (address + 4)]\<rparr>))
   \<and> (nib \<noteq> 0 \<and> GetModuleIndex nm s = -1 \<longrightarrow>
      WriteSyscall U nm nib address s =
        Some (s\<lparr>trace := trace s @
                [INFO_LOG ''Syscall (%s,%08x) unresolved, storing for later resolving''
                   [S nm, X nib]],
              unresolvedSyscalls := unresolvedSyscalls s @
                [\<lparr>moduleName = take 31 nm, symAddr = address, nid = nib\<rparr>]\<rparr>))"
proof (intro conjI impI)
  assume "nib = 0"
  then show "WriteSyscall U nm nib address s =
        Some (s\<lparr>trace := trace s @
          [Write_U32 (MIPS_MAKE_JR_RA U) address, Write_U32 (MIPS_MAKE_NOP U) (address + 4)]\<rparr>)"
    by (simp add: WriteSyscall_def emit_def)
next
  assume a: "nib \<noteq> 0 \<and> GetModuleIndex nm s \<noteq> -1 \<and> GetSyscallOp nm nib s = Some (op, s)"
  then have "GetSyscallOp nm nib (emit (Write_U32 (MIPS_MAKE_JR_RA U) address) s)
      = Some (op, emit (Write_U32 (MIPS_MAKE_JR_RA U) address) s)"
    using GetSyscallOp_emit(2) by blast
  with a show "WriteSyscall U nm nib address s =
        Some (s\<lparr>trace := trace s @
          [Write_U32 (MIPS_MAKE_JR_RA U) address, Write_U32 op (address + 4)]\<rparr>)"
    by (simp add: WriteSyscall_def emit_def)
next
  assume "nib \<noteq> 0 \<and> GetModuleIndex nm s = -1"
  then show "WriteSyscall U nm nib address s =
        Some (s\<lparr>trace := trace s @
                [INFO_LOG ''Syscall (%s,%08x) unresolved, storing for later resolving''
                   [S nm, X nib]],
              unresolvedSyscalls := unresolvedSyscalls s @
                [\<lparr>moduleName = take 31 nm, symAddr = address, nid = nib\<rparr>]\<rparr>)"
    by (simp add: WriteSyscall_def emit_def)
qed

lemma ex_GetModuleIndex_unknown: "GetModuleIndex ''sceFoo'' ex_state = -1"
  by (simp add: GetModuleIndex_def ex_state_def)

lemma ex_GetSyscallOp_1111: "GetSyscallOp ''Kernel_Library'' 0x1111 ex_state = Some (0x4c, ex_state)"
  by (simp add: GetSyscallOp_def ex_GetModuleIndex ex_GetFuncIndex_1111)

theorem WriteSyscall_cases_witness:
  "WriteSyscall ex_utils ''Kernel_Library'' 0 0x08804000 ex_state =
      Some (ex_state\<lparr>trace := [Write_U32 0x03E00008 0x08804000, Write_U32 0 0x08804004]\<rparr>)
   \<and> WriteSyscall ex_utils ''Kernel_Library'' 0x1111 0x08804000 ex_state =
      Some (ex_state\<lparr>trace := [Write_U32 0x03E00008 0x08804000, Write_U32 0x4c 0x08804004]\<rparr>)
   \<and> WriteSyscall ex_utils ''sceFoo'' 0x1111 0x08804000 ex_state =
      Some (ex_state\<lparr>trace :=
                [INFO_LOG ''Syscall (%s,%08x) unresolved, storing for later resolving''
                   [S ''sceFoo'', X 0x1111]],
              unresolvedSyscalls :=
                [\<lparr>moduleName = ''sceFoo'', symAddr = 0x08804000, nid = 0x1111\<rparr>]\<rparr>)"
  using WriteSyscall_cases [where nib = 0 and U = ex_utils and nm = "''Kernel_Library''"
      and address = "0x08804000" and s = ex_state, THEN conjunct1]
    WriteSyscall_cases [where nib = "0x1111" and U = ex_utils and nm = "''Kernel_Library''"
      and address = "0x08804000" and s = ex_state and op = "0x4c", THEN conjunct2, THEN conjunct1]
    WriteSyscall_cases [where nib = "0x1111" and U = ex_utils and nm = "''sceFoo''"
      and address = "0x08804000" and s = ex_state, THEN conjunct2, THEN conjunct2]
  by (simp add: ex_GetModuleIndex ex_GetModuleIndex_unknown ex_GetSyscallOp_1111)
    (simp add: ex_utils_def ex_state_def)

lemma ResolveSyscall_loop_eq:
  "ResolveSyscall_loop U nm nib address xs s =
     s\<lparr>trace := trace s @
        concat (map (\<lambda>sysc. [INFO_LOG ''Resolving %s/%08x'' [S nm, X nib],
                               Write_U32 (MIPS_MAKE_J U address) (symAddr sysc),
                               Write_U32 (MIPS_MAKE_NOP U) (symAddr sysc + 4)])
                 (filter (\<lambda>sysc. strncmp_eq (moduleName sysc) nm 32 \<and> nid sysc = nib) xs))\<rparr>"
proof (induction xs arbitrary: s)
  case Nil
  show ?case by simp
next
  case (Cons sysc xs)
  show ?case
    by (simp add: Cons.IH ResolveSyscall_body_def emit_def)
qed

lemma strncmp_eq_short:
  assumes "length a \<le> 31"
  shows "strncmp_eq a b 32 \<longleftrightarrow> a = b"
proof
  assume "strncmp_eq a b 32"
  then have eq: "take 32 b = a" using assms by (simp add: strncmp_eq_def)
  then have "length (take 32 b) \<le> 31" using assms by simp
  then have "length b \<le> 31" by (simp add: min_def split: if_splits)
  with eq show "a = b" by simp
next
  assume "a = b"
  then show "strncmp_eq a b 32" by (simp add: strncmp_eq_def)
qed

text \<open>
  C7. \<open>ResolveSyscall\<close> goes through \<open>unresolvedSyscalls\<close> in order and, for each entry
  whose name agrees with the module name under \<open>strncmp(_, _, 32)\<close> and whose NID is the
  given one, writes \<open>MIPS_MAKE_J(address)\<close> at the entry's \<open>symAddr\<close> and
  \<open>MIPS_MAKE_NOP()\<close> at \<open>symAddr + 4\<close>; nothing else is written and the list is left as
  it was. For an entry name of at most 31 characters, as \<open>WriteSyscall\<close> stores them, the
  comparison is equality of the names.
\<close>

theorem ResolveSyscall_patches:
  "ResolveSyscall U nm nib address s =
     s\<lparr>trace := trace s @
        concat (map (\<lambda>sysc. [INFO_LOG ''Resolving %s/%08x'' [S nm, X nib],
                               Write_U32 (MIPS_MAKE_J U address) (symAddr sysc),
                               Write_U32 (MIPS_MAKE_NOP U) (symAddr sysc + 4)])
                 (filter (\<lambda>sysc. strncmp_eq (moduleName sysc) nm 32 \<and> nid sysc = nib)
                    (unresolvedSyscalls s)))\<rparr>
   \<and> unresolvedSyscalls (ResolveSyscall U nm nib address s) = unresolvedSyscalls s
   \<and> (\<forall>sysc. length (moduleName sysc) \<le> 31 \<longrightarrow>
         strncmp_eq (moduleName sysc) nm 32 = (moduleName sysc = nm))"
  by (simp add: ResolveSyscall_def ResolveSyscall_loop_eq strncmp_eq_short)


theorem ResolveSyscall_patches_witness:
  "ResolveSyscall ex_utils ''sceFoo'' 0x1111 0x08900000 ex_unresolved =
     ex_unresolved\<lparr>trace :=
       [INFO_LOG ''Resolving %s/%08x'' [S ''sceFoo'', X 0x1111],
        Write_U32 0x0A240000 0x08804000, Write_U32 0 0x08804004,
        INFO_LOG ''Resolving %s/%08x'' [S ''sceFoo'', X 0x1111],
        Write_U32 0x0A240000 0x08804020, Write_U32 0 0x08804024]\<rparr>
   \<and> length (unresolvedSyscalls (ResolveSyscall ex_utils ''sceFoo'' 0x1111 0x08900000 ex_unresolved)) = 3
   \<and> length ''sceFoo'' \<le> 31 \<and> strncmp_eq ''sceFoo'' ''sceFoo'' 32"
proof -
  note T = ResolveSyscall_patches [of ex_utils "''sceFoo''" "0x1111" "0x08900000" ex_unresolved]
  have 1: "ResolveSyscall ex_utils ''sceFoo'' 0x1111 0x08900000 ex_unresolved =
     ex_unresolved\<lparr>trace :=
       [INFO_LOG ''Resolving %s/%08x'' [S ''sceFoo'', X 0x1111],
        Write_U32 0x0A240000 0x08804000, Write_U32 0 0x08804004,
        INFO_LOG ''Resolving %s/%08x'' [S ''sceFoo'', X 0x1111],
        Write_U32 0x0A240000 0x08804020, Write_U32 0 0x08804024]\<rparr>"
    using T [THEN conjunct1]
    by (simp add: ex_unresolved_def ex_state_def ex_utils_def strncmp_eq_def)
  have 2: "length (unresolvedSyscalls (ResolveSyscall ex_utils ''sceFoo'' 0x1111 0x08900000 ex_unresolved)) = 3"
    using T [THEN conjunct2, THEN conjunct1] by (simp add: ex_unresolved_def)
  have 3: "strncmp_eq ''sceFoo'' ''sceFoo'' 32"
    using T [THEN conjunct2, THEN conjunct2, rule_format,
        of "\<lparr>moduleName = ''sceFoo'', symAddr = 0x08804000, nid = 0x1111\<rparr>"]
    by simp
  from 1 2 3 show ?thesis by simp
qed

section \<open>The reschedule reason\<close>

lemma cstr_terminated: "NUL \<notin> set r \<Longrightarrow> cstr (r @ NUL # rest) = r"
  by (induction r) (auto simp: cstr_def)

lemma dbg_fields [simp]:
  "hleAfterSyscall (dbg_assert_msg c msg s) = hleAfterSyscall s"
  "hleAfterSyscallReschedReason (dbg_assert_msg c msg s) = hleAfterSyscallReschedReason s"
  by (simp_all add: dbg_assert_msg_def)

lemma strcpy_fits:
  assumes "length src < length dst"
  defines "b \<equiv> src @ [NUL] @ drop (length src + 1) dst"
  shows "strcpy dst src = Some b" "length b = length dst" "NUL \<notin> set src \<Longrightarrow> cstr b = src"
  using assms by (simp_all add: strcpy_def cstr_terminated)

lemma memcpy_truncates:
  assumes "length dst = Suc n" "Suc n \<le> length src"
  defines "b \<equiv> take n src @ [NUL]"
  shows "\<exists>b0. memcpy dst src n = Some b0 \<and> store_at b0 n NUL = Some b"
    "length b = length dst" "NUL \<notin> set src \<Longrightarrow> cstr b = take n src"
proof -
  from assms(1,2) have "memcpy dst src n = Some (take n src @ drop n dst)"
    by (simp add: memcpy_def)
  moreover from assms(1,2) have "length (drop n dst) = 1" by simp
  then obtain c where "drop n dst = [c]"
    by (cases "drop n dst") simp_all
  moreover from assms(2) have "length (take n src) = n" by simp
  ultimately show "\<exists>b0. memcpy dst src n = Some b0 \<and> store_at b0 n NUL = Some b"
    by (simp add: store_at_def b_def list_update_append)
  show "length b = length dst" using assms by simp
  show "cstr b = take n src" if "NUL \<notin> set src"
    unfolding b_def using cstr_terminated [of "take n src" "[]"] that
    by (auto dest: in_set_takeD)
qed

lemma set_RESCHED: "(x OR HLE_AFTER_RESCHED) AND HLE_AFTER_RESCHED = HLE_AFTER_RESCHED"
  by (simp add: word_ao_absorbs)

text \<open>
  C9. On a reason buffer of \<open>sizeof_reason\<close> bytes \<open>hleReSchedule\<close> writes inside the
  buffer (the result is defined and the buffer keeps its size) and sets the reschedule
  bit. A null reason stores the string \<open>Invalid reason\<close>; a reason of \<open>sizeof_reason\<close>
  characters or more fills the buffer with its first \<open>sizeof_reason - 1\<close> characters and a
  terminator; a shorter reason is copied with its terminator and the bytes after it are
  left alone. What a reader of the buffer then sees is the reason cut to
  \<open>sizeof_reason - 1\<close> characters.
\<close>

theorem hleReSchedule_stores_reason:
  assumes "length (hleAfterSyscallReschedReason s) = sizeof_reason"
  shows "\<exists>s'. hleReSchedule reason s = Some s'
     \<and> hleAfterSyscall s' = hleAfterSyscall s OR HLE_AFTER_RESCHED
     \<and> hleAfterSyscall s' AND HLE_AFTER_RESCHED = HLE_AFTER_RESCHED
     \<and> length (hleAfterSyscallReschedReason s') = sizeof_reason
     \<and> (reason = None \<longrightarrow> cstr (hleAfterSyscallReschedReason s') = ''Invalid reason'')
     \<and> (\<forall>r. reason = Some r \<and> sizeof_reason \<le> length r \<longrightarrow>
            hleAfterSyscallReschedReason s' = take (sizeof_reason - 1) r @ [NUL])
     \<and> (\<forall>r. reason = Some r \<and> length r < sizeof_reason \<longrightarrow>
            hleAfterSyscallReschedReason s' =
              r @ [NUL] @ drop (length r + 1) (hleAfterSyscallReschedReason s))
     \<and> (\<forall>r. reason = Some r \<and> NUL \<notin> set r \<longrightarrow>
            cstr (hleAfterSyscallReschedReason s') = take (sizeof_reason - 1) r)"
proof -
  let ?buf = "hleAfterSyscallReschedReason s"
  have stored: "\<exists>s'. hleReSchedule reason s = Some s'
      \<and> hleAfterSyscall s' = hleAfterSyscall s OR HLE_AFTER_RESCHED
      \<and> hleAfterSyscallReschedReason s' = b"
    if "case reason of
          None \<Rightarrow> strcpy ?buf ''Invalid reason'' = Some b
        | Some r \<Rightarrow>
            if sizeof_reason \<le> length r
            then \<exists>b0. memcpy ?buf r (sizeof_reason - 1) = Some b0
                   \<and> store_at b0 (sizeof_reason - 1) NUL = Some b
            else strcpy ?buf r = Some b" for b
    using that
    by (auto simp: hleReSchedule_def Let_def split: option.splits if_splits)
  show ?thesis
  proof (cases reason)
    case None
    define b where "b = ''Invalid reason'' @ [NUL] @ drop (length ''Invalid reason'' + 1) ?buf"
    have fits: "length ''Invalid reason'' < length ?buf"
      using assms by (simp add: sizeof_reason_def)
    have "NUL \<notin> set ''Invalid reason''" by (simp add: NUL_def)
    note sc = strcpy_fits [OF fits, folded b_def] strcpy_fits(3) [OF fits this, folded b_def]
    from stored [of b] None sc(1) obtain s' where
      "hleReSchedule reason s = Some s'"
      "hleAfterSyscall s' = hleAfterSyscall s OR HLE_AFTER_RESCHED"
      "hleAfterSyscallReschedReason s' = b"
      by auto
    with None sc(2,4) assms show ?thesis
      by (intro exI [where x = s']) (simp add: set_RESCHED)
  next
    case (Some r)
    show ?thesis
    proof (cases "sizeof_reason \<le> length r")
      case True
      define b where "b = take 511 r @ [NUL]"
      have sz: "sizeof_reason - 1 = 511" by (simp add: sizeof_reason_def)
      have l: "length ?buf = Suc 511" "Suc 511 \<le> length r"
        using assms True by (simp_all add: sizeof_reason_def)
      note mc = memcpy_truncates [OF l, folded b_def]
      from stored [of b] Some True mc(1) obtain s' where
        "hleReSchedule reason s = Some s'"
        "hleAfterSyscall s' = hleAfterSyscall s OR HLE_AFTER_RESCHED"
        "hleAfterSyscallReschedReason s' = b"
        by (auto simp: sizeof_reason_def)
      with Some True mc(2,3) assms show ?thesis
        by (intro exI [where x = s']) (simp add: set_RESCHED, simp add: b_def sizeof_reason_def)
    next
      case False
      define b where "b = r @ [NUL] @ drop (length r + 1) ?buf"
      from False assms have fits: "length r < length ?buf" by simp
      note sc = strcpy_fits [OF fits, folded b_def]
      have tk: "take (sizeof_reason - 1) r = r"
        using False by (simp add: sizeof_reason_def)
      from stored [of b] Some False sc(1) obtain s' where
        "hleReSchedule reason s = Some s'"
        "hleAfterSyscall s' = hleAfterSyscall s OR HLE_AFTER_RESCHED"
        "hleAfterSyscallReschedReason s' = b"
        by auto
      with Some False sc(2,3) assms tk show ?thesis
        by (intro exI [where x = s']) (simp add: set_RESCHED, simp add: b_def)
    qed
  qed
qed


lemma ex_state_reason_length: "length (hleAfterSyscallReschedReason ex_state) = sizeof_reason"
  by (simp add: ex_state_def sizeof_reason_def)

theorem hleReSchedule_stores_reason_witness:
  "length (hleAfterSyscallReschedReason ex_state) = sizeof_reason
   \<and> (\<exists>s'. hleReSchedule (Some ''wait'') ex_state = Some s'
         \<and> hleAfterSyscall s' = HLE_AFTER_RESCHED
         \<and> length (hleAfterSyscallReschedReason s') = 512
         \<and> cstr (hleAfterSyscallReschedReason s') = ''wait'')
   \<and> (\<exists>s'. hleReSchedule (Some (replicate 600 CHR ''a'')) ex_state = Some s'
         \<and> hleAfterSyscallReschedReason s' = replicate 511 CHR ''a'' @ [NUL])
   \<and> (\<exists>s'. hleReSchedule None ex_state = Some s'
         \<and> cstr (hleAfterSyscallReschedReason s') = ''Invalid reason'')"
proof -
  have z: "hleAfterSyscall ex_state OR HLE_AFTER_RESCHED = HLE_AFTER_RESCHED"
    by (simp add: ex_state_def)
  have 1: "\<exists>s'. hleReSchedule (Some ''wait'') ex_state = Some s'
         \<and> hleAfterSyscall s' = HLE_AFTER_RESCHED
         \<and> length (hleAfterSyscallReschedReason s') = 512
         \<and> cstr (hleAfterSyscallReschedReason s') = ''wait''"
    using hleReSchedule_stores_reason [OF ex_state_reason_length, of "Some ''wait''"]
    by (simp add: z sizeof_reason_def NUL_def; blast)
  have 2: "\<exists>s'. hleReSchedule (Some (replicate 600 CHR ''a'')) ex_state = Some s'
         \<and> hleAfterSyscallReschedReason s' = replicate 511 CHR ''a'' @ [NUL]"
    using hleReSchedule_stores_reason [OF ex_state_reason_length, of "Some (replicate 600 CHR ''a'')"]
    by (simp add: sizeof_reason_def NUL_def; blast)
  have 3: "\<exists>s'. hleReSchedule None ex_state = Some s'
         \<and> cstr (hleAfterSyscallReschedReason s') = ''Invalid reason''"
    using hleReSchedule_stores_reason [OF ex_state_reason_length, of None]
    by (simp; blast)
  from 1 2 3 ex_state_reason_length show ?thesis by simp
qed

end
